theory Spec2Isabelle
  imports Main "HOL-Library.Word"
begin

text \<open>
  The migration tool \<^verbatim>\<open>main.go\<close> exists in two generations. Both export the users of a
  source tenant with the same polling loop; they differ in the batcher (\<^verbatim>\<open>splitJSONData\<close>
  over lines, then over a \<^verbatim>\<open>json.Decoder\<close> and with the \<^verbatim>\<open>email_verified\<close> flag)
  and in the import poller (\<^verbatim>\<open>checkImportJobStatus\<close> with a fixed sleep, then with a
  growing sleep and a ceiling). A name without suffix is the second generation; the first
  carries \<open>_gen1\<close>.

  Go's \<^verbatim>\<open>int\<close> and \<^verbatim>\<open>time.Duration\<close> are 64-bit integers. The durations of the program
  stay below 340 seconds counted in nanoseconds, and its byte counts are lengths of data it
  holds in memory, so no sum here comes near \<open>2 ^ 63\<close> and both are taken as
  \<^typ>\<open>int\<close>.
\<close>

section \<open>Data model\<close>

text \<open>
  A decoded JSON value, as \<^verbatim>\<open>encoding/json\<close> stores it in an \<^verbatim>\<open>interface{}\<close>:
  nil, bool, float64, string, a slice or a nested map. The pipeline never computes with a
  number, so a float64 is carried as its 64-bit pattern.
\<close>

datatype jvalue =
    JNull
  | JBool bool
  | JNumber "64 word"
  | JString string
  | JArray "jvalue list"
  | JObject "(string \<times> jvalue) list"

text \<open>
  One user record, a Go \<^verbatim>\<open>map[string]interface{}\<close>. A Go map value is either nil or a
  table; reading a nil map is allowed, assigning into it panics.
\<close>

datatype user = NilMap | User "string \<Rightarrow> jvalue option"

text \<open>
  Every way a call of the program ends other than with its result. The first group are the
  error values the code builds (named after their messages), the last two are run-time
  panics of Go itself.
\<close>

datatype error =
    TransportError      \<comment> \<open>the error an SDK call returned, passed on as it is\<close>
  | NotCompleted        \<comment> \<open>"job not completed yet"\<close>
  | PollError           \<comment> \<open>"failed to read job status: ..."\<close>
  | JobFailed           \<comment> \<open>"import job ... failed"\<close>
  | JobTimeout          \<comment> \<open>"import job ... timed out"\<close>
  | ImportError         \<comment> \<open>"failed to import users: ..."\<close>
  | DecodeError         \<comment> \<open>"failed to decode JSON: ..." and "failed to parse JSON: ..."\<close>
  | MarshalError        \<comment> \<open>"failed to marshal user: ..."\<close>
  | DownloadError       \<comment> \<open>"failed to download file: ..." and the two file errors\<close>
  | NilMapPanic         \<comment> \<open>assignment to an entry in a nil map\<close>
  | NilDerefPanic       \<comment> \<open>dereference of a nil pointer\<close>

text \<open>
  The fields of \<^verbatim>\<open>management.Job\<close> the program reads. All three are pointers in the SDK,
  so each may be nil.
\<close>

record job =
  job_id :: "string option"
  job_status :: "string option"
  job_location :: "string option"

text \<open>
  The remote tenant is outside the program. It is scripted: the reply to the n-th call of
  each kind, counted from 0, where \<open>None\<close> is a call that returned an error.
\<close>

record tenant =
  ExportUsers_reply :: "job option"
  ImportUsers_reply :: "nat \<Rightarrow> job option"
  Read_reply :: "nat \<Rightarrow> job option"

text \<open>
  What the program has done to the outside so far, oldest call first: the job ids it asked
  \<^verbatim>\<open>Job.Read\<close> about, the durations it gave to \<^verbatim>\<open>time.Sleep\<close> (nanoseconds, as
  \<^verbatim>\<open>time.Duration\<close> counts), the user lists it handed to \<^verbatim>\<open>Job.ImportUsers\<close>, and the
  locations it downloaded. Console output is not recorded.
\<close>

record world =
  read_log :: "string list"
  sleep_log :: "int list"
  import_log :: "user list list"
  download_log :: "string list"

definition world0 :: world where
  "world0 = \<lparr>read_log = [], sleep_log = [], import_log = [], download_log = []\<rparr>"

definition Second :: int where
  "Second = 1000000000"

definition Minute :: int where
  "Minute = 60 * Second"

definition Job_Read :: "tenant \<Rightarrow> string \<Rightarrow> world \<Rightarrow> job option \<times> world" where
  "Job_Read t jobID w = (Read_reply t (length (read_log w)), w\<lparr>read_log := read_log w @ [jobID]\<rparr>)"

definition Sleep :: "int \<Rightarrow> world \<Rightarrow> world" where
  "Sleep d w = w\<lparr>sleep_log := sleep_log w @ [d]\<rparr>"

section \<open>Job poller, second generation\<close>

text \<open>
  The loop of \<^verbatim>\<open>checkImportJobStatus\<close>, with its four local variables as arguments. It
  is a partial function: \<open>None\<close> is a loop that never returns.
\<close>

partial_function (option) checkImportJobStatus_loop ::
  "tenant \<Rightarrow> string \<Rightarrow> int \<Rightarrow> int \<Rightarrow> int \<Rightarrow> int \<Rightarrow> world \<Rightarrow> (error option \<times> world) option"
where
  "checkImportJobStatus_loop t jobID interval maxInterval totalWait maxWait w =
     (if totalWait < maxWait then
        (case Job_Read t jobID w of
           (None, w1) \<Rightarrow> Some (Some PollError, w1)
         | (Some jb, w1) \<Rightarrow>
             (case job_status jb of
                None \<Rightarrow> Some (Some NilDerefPanic, w1)
              | Some st \<Rightarrow>
                  if st = ''completed'' then Some (None, w1)
                  else if st = ''failed'' then Some (Some JobFailed, w1)
                  else
                    checkImportJobStatus_loop t jobID
                      (if interval < maxInterval then interval * 2 else interval)
                      maxInterval (totalWait + interval) maxWait (Sleep interval w1)))
      else Some (Some JobTimeout, w))"

declare checkImportJobStatus_loop.simps [code]

definition checkImportJobStatus :: "tenant \<Rightarrow> string \<Rightarrow> world \<Rightarrow> (error option \<times> world) option" where
  "checkImportJobStatus t jobID w =
     checkImportJobStatus_loop t jobID (5 * Second) (30 * Second) (0 * Second) (5 * Minute) w"

section \<open>Job poller, first generation\<close>

text \<open>
  The first \<^verbatim>\<open>checkImportJobStatus\<close> is a \<^verbatim>\<open>for { ... }\<close> with a fixed sleep of ten
  seconds and no exit other than the three returns.
\<close>

partial_function (option) checkImportJobStatus_gen1 ::
  "tenant \<Rightarrow> string \<Rightarrow> world \<Rightarrow> (error option \<times> world) option"
where
  "checkImportJobStatus_gen1 t jobID w =
     (case Job_Read t jobID w of
        (None, w1) \<Rightarrow> Some (Some PollError, w1)
      | (Some jb, w1) \<Rightarrow>
          (case job_status jb of
             None \<Rightarrow> Some (Some NilDerefPanic, w1)
           | Some st \<Rightarrow>
               if st = ''completed'' then Some (None, w1)
               else if st = ''failed'' then Some (Some JobFailed, w1)
               else checkImportJobStatus_gen1 t jobID (Sleep (10 * Second) w1)))"

declare checkImportJobStatus_gen1.simps [code]

section \<open>Export orchestrator\<close>

text \<open>
  \<^verbatim>\<open>exportUsers\<close>, \<^verbatim>\<open>checkJobStatus\<close> and the loop of the export command are the same
  in both generations of the file (the second exports one more field and logs where the
  first calls \<^verbatim>\<open>log.Fatalf\<close>).
\<close>

definition exportUsers :: "tenant \<Rightarrow> error + string" where
  "exportUsers t =
     (case ExportUsers_reply t of
        None \<Rightarrow> Inl TransportError
      | Some jb \<Rightarrow> (case job_id jb of None \<Rightarrow> Inl NilDerefPanic | Some i \<Rightarrow> Inr i))"

definition checkJobStatus :: "tenant \<Rightarrow> string \<Rightarrow> world \<Rightarrow> (error + string) \<times> world" where
  "checkJobStatus t jobID w =
     (case Job_Read t jobID w of
        (None, w1) \<Rightarrow> (Inl TransportError, w1)
      | (Some jb, w1) \<Rightarrow>
          (case job_status jb of
             None \<Rightarrow> (Inl NilDerefPanic, w1)
           | Some st \<Rightarrow>
               if st = ''completed''
               then (case job_location jb of
                       None \<Rightarrow> (Inl NilDerefPanic, w1)
                     | Some location \<Rightarrow> (Inr location, w1))
               else (Inl NotCompleted, w1)))"

text \<open>
  \<^verbatim>\<open>downloadFile\<close> reaches the network and the disk; \<open>fetch\<close> says whether the
  location could be fetched and written.
\<close>

definition downloadFile :: "(string \<Rightarrow> bool) \<Rightarrow> string \<Rightarrow> world \<Rightarrow> error option \<times> world" where
  "downloadFile fetch url w =
     (if fetch url then None else Some DownloadError, w\<lparr>download_log := download_log w @ [url]\<rparr>)"

definition is_panic :: "error \<Rightarrow> bool" where
  "is_panic e = (e = NilMapPanic \<or> e = NilDerefPanic)"

text \<open>
  The \<^verbatim>\<open>for { ... }\<close> of the export command. An error value of \<^verbatim>\<open>checkJobStatus\<close>
  sends the loop round again; a panic is no error value and leaves the loop.
\<close>

partial_function (option) exportCmd_loop ::
  "tenant \<Rightarrow> (string \<Rightarrow> bool) \<Rightarrow> string \<Rightarrow> world \<Rightarrow> (error option \<times> world) option"
where
  "exportCmd_loop t fetch jobID w =
     (case checkJobStatus t jobID (Sleep (10 * Second) w) of
        (Inr location, w1) \<Rightarrow> Some (downloadFile fetch location w1)
      | (Inl e, w1) \<Rightarrow>
          if is_panic e then Some (Some e, w1) else exportCmd_loop t fetch jobID w1)"

declare exportCmd_loop.simps [code]

definition exportCmd_Run ::
  "tenant \<Rightarrow> (string \<Rightarrow> bool) \<Rightarrow> world \<Rightarrow> (error option \<times> world) option" where
  "exportCmd_Run t fetch w =
     (case exportUsers t of
        Inl e \<Rightarrow> Some (Some e, w)
      | Inr jobID \<Rightarrow> exportCmd_loop t fetch jobID w)"

section \<open>Stream batcher, second generation\<close>

text \<open>
  \<^verbatim>\<open>json.Decoder\<close> and \<^verbatim>\<open>json.Marshal\<close> belong to the Go library. The reader is
  taken as the results of the successive \<^verbatim>\<open>Decode\<close> calls up to \<^verbatim>\<open>io.EOF\<close>: a
  document that decoded into the map (\<^verbatim>\<open>null\<close> decodes and leaves the map nil), or one
  that made \<^verbatim>\<open>Decode\<close> return an error. \<open>Marshal\<close> is a parameter: the bytes of a
  record, or \<open>None\<close> for an error.
\<close>

datatype document = Doc user | Malformed

fun splitJSONData_loop ::
  "(user \<Rightarrow> string option) \<Rightarrow> int \<Rightarrow> bool \<Rightarrow> document list \<Rightarrow>
     user list list \<Rightarrow> user list \<Rightarrow> int \<Rightarrow> error + user list list"
where
  "splitJSONData_loop Marshal maxChunkSize emailVerify [] chunks chunk chunkSize =
     Inr (if length chunk > 0 then chunks @ [chunk] else chunks)"
| "splitJSONData_loop Marshal maxChunkSize emailVerify (Malformed # rest) chunks chunk chunkSize =
     Inl DecodeError"
| "splitJSONData_loop Marshal maxChunkSize emailVerify (Doc NilMap # rest) chunks chunk chunkSize =
     Inl NilMapPanic"
| "splitJSONData_loop Marshal maxChunkSize emailVerify (Doc (User m) # rest) chunks chunk chunkSize =
     (let user = User (m(''email_verified'' \<mapsto> JBool emailVerify)) in
      case Marshal user of
        None \<Rightarrow> Inl MarshalError
      | Some userData \<Rightarrow>
          let userSize = int (length userData) in
          if chunkSize + userSize > maxChunkSize
          then splitJSONData_loop Marshal maxChunkSize emailVerify rest
                 (chunks @ [chunk]) ([] @ [user]) (0 + userSize)
          else splitJSONData_loop Marshal maxChunkSize emailVerify rest
                 chunks (chunk @ [user]) (chunkSize + userSize))"

definition splitJSONData ::
  "(user \<Rightarrow> string option) \<Rightarrow> document list \<Rightarrow> int \<Rightarrow> bool \<Rightarrow> error + user list list" where
  "splitJSONData Marshal reader maxChunkSize emailVerify =
     splitJSONData_loop Marshal maxChunkSize emailVerify reader [] [] 0"

section \<open>Stream batcher, first generation\<close>

text \<open>
  \<^verbatim>\<open>strings.Split\<close> at the newline: the pieces between the newlines, one more than
  there are newlines.
\<close>

fun Split_nl :: "string \<Rightarrow> string list" where
  "Split_nl [] = [[]]"
| "Split_nl (c # cs) =
     (if c = CHR 0x0A then [] # Split_nl cs
      else (case Split_nl cs of [] \<Rightarrow> [[c]] | piece # pieces \<Rightarrow> (c # piece) # pieces))"

text \<open>
  \<^verbatim>\<open>strings.TrimSpace\<close>, \<^verbatim>\<open>json.Unmarshal\<close> and \<^verbatim>\<open>json.Marshal\<close> are parameters.
  \<open>Unmarshal\<close> gives the map the line decoded into (\<open>NilMap\<close> for \<^verbatim>\<open>null\<close>), or
  \<open>None\<close> for an error. The first generation does not touch the record.
\<close>

fun splitJSONData_gen1_loop ::
  "(string \<Rightarrow> string) \<Rightarrow> (string \<Rightarrow> user option) \<Rightarrow> (user \<Rightarrow> string option) \<Rightarrow> int \<Rightarrow>
     string list \<Rightarrow> user list list \<Rightarrow> user list \<Rightarrow> int \<Rightarrow> error + user list list"
where
  "splitJSONData_gen1_loop TrimSpace Unmarshal Marshal maxChunkSize [] chunks chunk chunkSize =
     Inr (if length chunk > 0 then chunks @ [chunk] else chunks)"
| "splitJSONData_gen1_loop TrimSpace Unmarshal Marshal maxChunkSize (line # rest) chunks chunk chunkSize =
     (if TrimSpace line = []
      then splitJSONData_gen1_loop TrimSpace Unmarshal Marshal maxChunkSize rest chunks chunk chunkSize
      else
        case Unmarshal (TrimSpace line) of
          None \<Rightarrow> Inl DecodeError
        | Some user \<Rightarrow>
            (case Marshal user of
               None \<Rightarrow> Inl MarshalError
             | Some userData \<Rightarrow>
                 let userSize = int (length userData) in
                 if chunkSize + userSize > maxChunkSize
                 then splitJSONData_gen1_loop TrimSpace Unmarshal Marshal maxChunkSize rest
                        (chunks @ [chunk]) ([] @ [user]) (0 + userSize)
                 else splitJSONData_gen1_loop TrimSpace Unmarshal Marshal maxChunkSize rest
                        chunks (chunk @ [user]) (chunkSize + userSize)))"

definition splitJSONData_gen1 ::
  "(string \<Rightarrow> string) \<Rightarrow> (string \<Rightarrow> user option) \<Rightarrow> (user \<Rightarrow> string option) \<Rightarrow>
     string \<Rightarrow> int \<Rightarrow> error + user list list" where
  "splitJSONData_gen1 TrimSpace Unmarshal Marshal data maxChunkSize =
     splitJSONData_gen1_loop TrimSpace Unmarshal Marshal maxChunkSize (Split_nl data) [] [] 0"

section \<open>Import orchestrator, second generation\<close>




section \<open>Scenarios\<close>

text \<open>Concrete tenants, records and library stand-ins, for the evaluations below.\<close>

definition job_with_status :: "string \<Rightarrow> job" where
  "job_with_status st = \<lparr>job_id = Some ''job_1'', job_status = Some st, job_location = None\<rparr>"

definition completed_job :: job where
  "completed_job =
     \<lparr>job_id = Some ''job_1'', job_status = Some ''completed'',
      job_location = Some ''https://files/job_1.json.gz''\<rparr>"

text \<open>A tenant that starts every job and answers every status read with the same status.\<close>

definition stuck_tenant :: "string \<Rightarrow> tenant" where
  "stuck_tenant st =
     \<lparr>ExportUsers_reply = Some (job_with_status ''pending''),
      ImportUsers_reply = (\<lambda>n. Some (job_with_status ''pending'')),
      Read_reply = (\<lambda>n. Some (job_with_status st))\<rparr>"

text \<open>A tenant whose first status read fails in transport and whose later reads report completion.\<close>

definition flaky_tenant :: tenant where
  "flaky_tenant =
     \<lparr>ExportUsers_reply = Some (job_with_status ''pending''),
      ImportUsers_reply = (\<lambda>n. Some (job_with_status ''pending'')),
      Read_reply = (\<lambda>n. if n = 0 then None else Some completed_job)\<rparr>"


definition user_1 :: "string \<Rightarrow> jvalue option" where
  "user_1 = [''user_id'' \<mapsto> JString ''1'']"

definition user_2 :: "string \<Rightarrow> jvalue option" where
  "user_2 = [''user_id'' \<mapsto> JString ''2'', ''email_verified'' \<mapsto> JBool False]"

definition user_3 :: "string \<Rightarrow> jvalue option" where
  "user_3 = [''user_id'' \<mapsto> JString ''u-0123456789-0123456789-0123456789-0123456789-0123'']"

text \<open>
  What \<^verbatim>\<open>json.Marshal\<close> writes for a record that holds a \<^verbatim>\<open>user_id\<close> string and
  at most an \<^verbatim>\<open>email_verified\<close> flag besides (keys in sorted order), and for the nil map.
\<close>

definition Marshal_small :: "user \<Rightarrow> string option" where
  \<open>Marshal_small u =
     (case u of
        NilMap \<Rightarrow> Some ''null''
      | User m \<Rightarrow>
          (case m ''user_id'' of
             Some (JString i) \<Rightarrow>
               (case m ''email_verified'' of
                  None \<Rightarrow> Some (''{"user_id":"'' @ i @ ''"}'')
                | Some (JBool b) \<Rightarrow>
                    Some (''{"email_verified":'' @ (if b then ''true'' else ''false'') @
                          '',"user_id":"'' @ i @ ''"}'')
                | Some _ \<Rightarrow> None)
           | _ \<Rightarrow> None))\<close>

text \<open>\<^verbatim>\<open>strings.TrimSpace\<close> on ASCII text.\<close>

definition is_space :: "char \<Rightarrow> bool" where
  "is_space c = (c \<in> set [CHR 0x09, CHR 0x0A, CHR 0x0B, CHR 0x0C, CHR 0x0D, CHR 0x20])"

definition TrimSpace_ascii :: "string \<Rightarrow> string" where
  "TrimSpace_ascii s = rev (dropWhile is_space (rev (dropWhile is_space s)))"

text \<open>\<^verbatim>\<open>json.Unmarshal\<close> on the three lines the scenarios use.\<close>

definition Unmarshal_small :: "string \<Rightarrow> user option" where
  \<open>Unmarshal_small line =
     (if line = ''{"user_id":"1"}'' then Some (User user_1)
      else if line = ''{"user_id":"u-0123456789-0123456789-0123456789-0123456789-0123"}''
        then Some (User user_3)
      else if line = ''null'' then Some NilMap
      else None)\<close>

text \<open>
  An export file of the first generation: two records on lines of their own, a blank line
  between them, blanks around the second.
\<close>

definition two_lines :: string where
  \<open>two_lines =
     ''{"user_id":"1"}'' @ [CHR 0x0A, CHR 0x0A] @
     ''  {"user_id":"u-0123456789-0123456789-0123456789-0123456789-0123"} '' @ [CHR 0x0A]\<close>

definition three_docs :: "document list" where
  "three_docs = [Doc (User user_1), Doc (User user_2), Doc (User user_3)]"



section \<open>Export orchestrator: failed jobs and read errors\<close>

lemma exportCmd_loop_not_completed_aux:
  assumes "exportCmd_loop t fetch jobID w = Some y" and st: "st \<noteq> ''completed''"
  shows "t \<noteq> stuck_tenant st"
proof (rule exportCmd_loop.raw_induct
    [where P = "\<lambda>t fetch jobID w y. t \<noteq> stuck_tenant st", OF _ assms(1)])
  fix loop :: "tenant \<Rightarrow> (string \<Rightarrow> bool) \<Rightarrow> string \<Rightarrow> world \<Rightarrow> (error option \<times> world) option"
  fix t fetch jobID w y
  assume IH: "\<And>t fetch jobID w y. loop t fetch jobID w = Some y \<Longrightarrow> t \<noteq> stuck_tenant st"
  assume body:
    "(case checkJobStatus t jobID (Sleep (10 * Second) w) of
        (Inl e, w1) \<Rightarrow> if is_panic e then Some (Some e, w1) else loop t fetch jobID w1
      | (Inr location, w1) \<Rightarrow> Some (downloadFile fetch location w1)) = Some y"
  show "t \<noteq> stuck_tenant st"
  proof
    assume t: "t = stuck_tenant st"
    define w1 where "w1 = snd (Job_Read t jobID (Sleep (10 * Second) w))"
    have "checkJobStatus t jobID (Sleep (10 * Second) w) = (Inl NotCompleted, w1)"
      unfolding t w1_def using st
      by (simp add: checkJobStatus_def Job_Read_def stuck_tenant_def job_with_status_def)
    with body have "loop t fetch jobID w1 = Some y"
      by (simp add: is_panic_def)
    from IH[OF this] t show False by simp
  qed
qed

lemma exportCmd_Run_not_completed:
  assumes "st \<noteq> ''completed''"
  shows "exportCmd_Run (stuck_tenant st) fetch w = None"
proof (cases "exportCmd_loop (stuck_tenant st) fetch ''job_1'' w")
  case None
  then show ?thesis
    by (simp add: exportCmd_Run_def exportUsers_def stuck_tenant_def job_with_status_def)
next
  case (Some y)
  from exportCmd_loop_not_completed_aux[OF this assms] show ?thesis by simp
qed

text \<open>
  C1. The claim is that the export run fails with ExportFailed when the polled job reports
  \<^verbatim>\<open>failed\<close>, fails with ExportTimeout at the wait ceiling, and never polls past either.
  \<^verbatim>\<open>checkJobStatus\<close> answers every status other than \<^verbatim>\<open>completed\<close> with the same
  error "job not completed yet", and the loop of the export command goes round again on any
  error and counts no waiting time. Against a tenant whose job has failed, and reports so at
  every read, the export command never returns: it does not fail. Against a tenant whose job
  stays pending it never returns either: it does not time out.
\<close>

theorem exportCmd_Run_failed_never_returns:
  "exportCmd_Run (stuck_tenant ''failed'') fetch w = None
   \<and> exportCmd_Run (stuck_tenant ''pending'') fetch w = None"
  by (simp add: exportCmd_Run_not_completed)

text \<open>
  C8. The claim is that a transport error of the status read is passed to the caller at
  once, not taken for a pending job and not retried. The import poller does so (lemma
  \<open>checkImportJobStatus_read_error\<close> below). The loop of the export command does not: the
  error of \<^verbatim>\<open>checkJobStatus\<close> is dropped with the message "Export job not completed
  yet, checking again...". Against a tenant whose first status read fails and whose second
  reports completion, the export command sleeps, reads, sleeps again, reads again and ends
  with the download, as if the job had been pending.
\<close>

theorem exportCmd_Run_retries_after_read_error:
  "exportCmd_Run flaky_tenant (\<lambda>url. True) world0 =
     Some (None,
       \<lparr>read_log = [''job_1'', ''job_1''], sleep_log = [10 * Second, 10 * Second],
        import_log = [], download_log = [''https://files/job_1.json.gz'']\<rparr>)"
  by (simp add: exportCmd_Run_def exportUsers_def exportCmd_loop.simps checkJobStatus_def
      Job_Read_def Sleep_def downloadFile_def is_panic_def flaky_tenant_def job_with_status_def
      completed_job_def world0_def)

section \<open>Job poller, second generation: results\<close>

lemma checkImportJobStatus_loop_timeout:
  "\<not> totalWait < maxWait \<Longrightarrow>
     checkImportJobStatus_loop t jobID interval maxInterval totalWait maxWait w =
       Some (Some JobTimeout, w)"
  by (subst checkImportJobStatus_loop.simps) simp

lemma checkImportJobStatus_loop_pending:
  assumes "totalWait < maxWait"
    and "Read_reply t (length (read_log w)) = Some jb" and "job_status jb = Some st"
    and "st \<noteq> ''completed''" and "st \<noteq> ''failed''"
  shows "checkImportJobStatus_loop t jobID interval maxInterval totalWait maxWait w =
     checkImportJobStatus_loop t jobID (if interval < maxInterval then interval * 2 else interval)
       maxInterval (totalWait + interval) maxWait
       (w\<lparr>read_log := read_log w @ [jobID], sleep_log := sleep_log w @ [interval]\<rparr>)"
  by (subst checkImportJobStatus_loop.simps) (simp add: assms Job_Read_def Sleep_def)

text \<open>A read error ends the second-generation poller at once, with one read made.\<close>

lemma checkImportJobStatus_read_error:
  assumes "Read_reply t (length (read_log w)) = None"
  shows "checkImportJobStatus t jobID w =
           Some (Some PollError, w\<lparr>read_log := read_log w @ [jobID]\<rparr>)"
  unfolding checkImportJobStatus_def
  by (subst checkImportJobStatus_loop.simps) (simp add: assms Job_Read_def Second_def Minute_def)


text \<open>
  Against a tenant that never reports a terminal status the second-generation poller makes
  ten reads, sleeps 315 seconds in all and returns the timeout: the ceiling of 300 seconds
  is compared with the time already slept, so the last sleep runs past it.
\<close>

lemma checkImportJobStatus_never_terminal:
  assumes nt: "\<And>n. \<exists>jb st. Read_reply t n = Some jb \<and> job_status jb = Some st \<and>
                  st \<noteq> ''completed'' \<and> st \<noteq> ''failed''"
  shows "checkImportJobStatus t jobID w =
     Some (Some JobTimeout,
       w\<lparr>read_log := read_log w @ replicate 10 jobID,
         sleep_log := sleep_log w @
           [5 * Second, 10 * Second, 20 * Second, 40 * Second, 40 * Second,
            40 * Second, 40 * Second, 40 * Second, 40 * Second, 40 * Second]\<rparr>)"
proof -
  have step: "checkImportJobStatus_loop t jobID interval maxInterval totalWait maxWait w =
     checkImportJobStatus_loop t jobID (if interval < maxInterval then interval * 2 else interval)
       maxInterval (totalWait + interval) maxWait
       (w\<lparr>read_log := read_log w @ [jobID], sleep_log := sleep_log w @ [interval]\<rparr>)"
    if lt: "totalWait < maxWait" for interval maxInterval totalWait maxWait :: int and w :: world
  proof -
    from nt[of "length (read_log w)"] obtain jb st where
      "Read_reply t (length (read_log w)) = Some jb" "job_status jb = Some st"
      "st \<noteq> ''completed''" "st \<noteq> ''failed''" by blast
    from checkImportJobStatus_loop_pending[OF lt this] show ?thesis .
  qed
  show ?thesis
    unfolding checkImportJobStatus_def
    by (simp add: step checkImportJobStatus_loop_timeout Second_def Minute_def eval_nat_numeral)
qed

text \<open>
  Whatever the tenant answers, the sleeps of one run of the loop never decrease (for an
  interval that is not negative).
\<close>

lemma checkImportJobStatus_loop_sleeps_sorted:
  assumes "checkImportJobStatus_loop t jobID interval maxInterval totalWait maxWait w = Some y"
  shows "0 \<le> interval \<longrightarrow>
     (\<exists>ds. sleep_log (snd y) = sleep_log w @ ds \<and> sorted ds \<and> (\<forall>d\<in>set ds. interval \<le> d))"
proof (rule checkImportJobStatus_loop.raw_induct
    [where P = "\<lambda>t jobID interval maxInterval totalWait maxWait w y. 0 \<le> interval \<longrightarrow>
     (\<exists>ds. sleep_log (snd y) = sleep_log w @ ds \<and> sorted ds \<and> (\<forall>d\<in>set ds. interval \<le> d))",
      OF _ assms])
  fix loop :: "tenant \<Rightarrow> string \<Rightarrow> int \<Rightarrow> int \<Rightarrow> int \<Rightarrow> int \<Rightarrow> world \<Rightarrow> (error option \<times> world) option"
  fix t jobID interval maxInterval totalWait maxWait w y
  assume IH: "\<And>t jobID interval maxInterval totalWait maxWait w y.
     loop t jobID interval maxInterval totalWait maxWait w = Some y \<Longrightarrow> 0 \<le> interval \<longrightarrow>
     (\<exists>ds. sleep_log (snd y) = sleep_log w @ ds \<and> sorted ds \<and> (\<forall>d\<in>set ds. interval \<le> d))"
  assume body: "(if totalWait < maxWait then
        (case Job_Read t jobID w of
           (None, w1) \<Rightarrow> Some (Some PollError, w1)
         | (Some jb, w1) \<Rightarrow>
             (case job_status jb of
                None \<Rightarrow> Some (Some NilDerefPanic, w1)
              | Some st \<Rightarrow>
                  if st = ''completed'' then Some (None, w1)
                  else if st = ''failed'' then Some (Some JobFailed, w1)
                  else
                    loop t jobID
                      (if interval < maxInterval then interval * 2 else interval)
                      maxInterval (totalWait + interval) maxWait (Sleep interval w1)))
      else Some (Some JobTimeout, w)) = Some y"
  show "0 \<le> interval \<longrightarrow>
     (\<exists>ds. sleep_log (snd y) = sleep_log w @ ds \<and> sorted ds \<and> (\<forall>d\<in>set ds. interval \<le> d))"
  proof
    assume nn: "0 \<le> interval"
    define w1 where "w1 = w\<lparr>read_log := read_log w @ [jobID]\<rparr>"
    define interval' where "interval' = (if interval < maxInterval then interval * 2 else interval)"
    have le: "interval \<le> interval'" "0 \<le> interval'" using nn by (auto simp: interval'_def)
    consider (stop) "sleep_log (snd y) = sleep_log w"
      | (go) "loop t jobID interval' maxInterval (totalWait + interval) maxWait (Sleep interval w1) = Some y"
      using body by (auto simp: Job_Read_def w1_def interval'_def split: if_splits option.splits)
    then show "\<exists>ds. sleep_log (snd y) = sleep_log w @ ds \<and> sorted ds \<and> (\<forall>d\<in>set ds. interval \<le> d)"
    proof cases
      case stop
      then show ?thesis by (intro exI[where x = "[]"]) simp
    next
      case go
      from IH[OF go] le obtain ds where ds: "sleep_log (snd y) = sleep_log (Sleep interval w1) @ ds"
        "sorted ds" "\<forall>d\<in>set ds. interval' \<le> d" by blast
      show ?thesis
        by (rule exI[where x = "interval # ds"]) (use ds le in \<open>auto simp: Sleep_def w1_def\<close>)
    qed
  qed
qed

lemma checkImportJobStatus_sleeps_sorted:
  assumes "checkImportJobStatus t jobID w = Some y"
  shows "\<exists>ds. sleep_log (snd y) = sleep_log w @ ds \<and> sorted ds"
proof -
  have "0 \<le> 5 * Second" by (simp add: Second_def)
  with checkImportJobStatus_loop_sleeps_sorted[OF assms[unfolded checkImportJobStatus_def]]
  show ?thesis by blast
qed

text \<open>
  C2. The claim is that the sleeps of one run never decrease and that none is longer than
  the interval ceiling, 30 seconds in the second generation. The first half holds (lemma
  \<open>checkImportJobStatus_sleeps_sorted\<close>). The second does not: the interval is doubled
  whenever it is still below \<^verbatim>\<open>maxInterval\<close> and the product is not cut back, so
  20 seconds become 40. Against a tenant that stays pending the sleeps are 5, 10 and 20
  seconds and then seven times 40 seconds.
\<close>

theorem checkImportJobStatus_pending_sleeps:
  "checkImportJobStatus (stuck_tenant ''pending'') ''job_1'' world0 =
     Some (Some JobTimeout,
       \<lparr>read_log = replicate 10 ''job_1'',
        sleep_log = [5 * Second, 10 * Second, 20 * Second, 40 * Second, 40 * Second,
                     40 * Second, 40 * Second, 40 * Second, 40 * Second, 40 * Second],
        import_log = [], download_log = []\<rparr>)"
  by (simp add: checkImportJobStatus_def checkImportJobStatus_loop.simps Job_Read_def Sleep_def
      stuck_tenant_def job_with_status_def world0_def Second_def Minute_def eval_nat_numeral)

section \<open>Job poller, first generation: no ceiling\<close>

lemma checkImportJobStatus_gen1_pending_aux:
  assumes "checkImportJobStatus_gen1 t jobID w = Some y"
  shows "t \<noteq> stuck_tenant ''pending''"
proof (rule checkImportJobStatus_gen1.raw_induct
    [where P = "\<lambda>t jobID w y. t \<noteq> stuck_tenant ''pending''", OF _ assms])
  fix loop :: "tenant \<Rightarrow> string \<Rightarrow> world \<Rightarrow> (error option \<times> world) option"
  fix t jobID w y
  assume IH: "\<And>t jobID w y. loop t jobID w = Some y \<Longrightarrow> t \<noteq> stuck_tenant ''pending''"
  assume body:
    "(case Job_Read t jobID w of
        (None, w1) \<Rightarrow> Some (Some PollError, w1)
      | (Some jb, w1) \<Rightarrow>
          (case job_status jb of
             None \<Rightarrow> Some (Some NilDerefPanic, w1)
           | Some st \<Rightarrow>
               if st = ''completed'' then Some (None, w1)
               else if st = ''failed'' then Some (Some JobFailed, w1)
               else loop t jobID (Sleep (10 * Second) w1))) = Some y"
  show "t \<noteq> stuck_tenant ''pending''"
  proof
    assume t: "t = stuck_tenant ''pending''"
    define w1 where "w1 = w\<lparr>read_log := read_log w @ [jobID]\<rparr>"
    have "Job_Read t jobID w = (Some (job_with_status ''pending''), w1)"
      unfolding t by (simp add: Job_Read_def stuck_tenant_def w1_def)
    with body have "loop t jobID (Sleep (10 * Second) w1) = Some y"
      by (simp add: job_with_status_def)
    from IH[OF this] t show False by simp
  qed
qed

text \<open>
  C6. The claim is that the poller returns JobTimeout against a tenant that never reports a
  terminal status. The second-generation poller does, after ten reads and 315 seconds of
  sleep against its ceiling of 300 (lemma \<open>checkImportJobStatus_never_terminal\<close>). The
  first-generation poller has no ceiling: against a tenant that stays pending it never
  returns.
\<close>

theorem checkImportJobStatus_gen1_pending_never_returns:
  "checkImportJobStatus_gen1 (stuck_tenant ''pending'') jobID w = None"
proof (cases "checkImportJobStatus_gen1 (stuck_tenant ''pending'') jobID w")
  case None
  then show ?thesis .
next
  case (Some y)
  from checkImportJobStatus_gen1_pending_aux[OF this] show ?thesis by simp
qed

section \<open>Stream batcher: empty batches\<close>

lemma splitJSONData_loop_nonempty:
  assumes "splitJSONData_loop M mx ev docs chunks chunk sz = Inr out"
    and "[] \<notin> set chunks" and "chunk \<noteq> []"
  shows "[] \<notin> set out"
  using assms
proof (induction docs arbitrary: chunks chunk sz)
  case Nil
  then show ?case by (auto split: if_splits)
next
  case (Cons d docs)
  show ?case
  proof (cases d)
    case Malformed
    with Cons.prems(1) show ?thesis by simp
  next
    case (Doc v)
    show ?thesis
    proof (cases v)
      case NilMap
      with Doc Cons.prems(1) show ?thesis by simp
    next
      case (User m)
      define user where "user = User (m(''email_verified'' \<mapsto> JBool ev))"
      from Cons.prems(1) Doc User obtain userData where md: "M user = Some userData"
        by (cases "M user") (simp_all add: Let_def user_def)
      show ?thesis
      proof (cases "sz + int (length userData) > mx")
        case True
        with Cons.prems(1) Doc User md
        have "splitJSONData_loop M mx ev docs (chunks @ [chunk]) [user] (int (length userData)) = Inr out"
          by (simp add: Let_def user_def)
        then show ?thesis
          by (rule Cons.IH) (use Cons.prems(2,3) in auto)
      next
        case False
        with Cons.prems(1) Doc User md
        have "splitJSONData_loop M mx ev docs chunks (chunk @ [user]) (sz + int (length userData)) = Inr out"
          by (simp add: Let_def user_def)
        then show ?thesis
          by (rule Cons.IH) (use Cons.prems(2,3) in auto)
      qed
    qed
  qed
qed

text \<open>
  The empty batch can only be the first one: when the first record of the stream fits the
  limit, no batch of the second-generation batcher is empty.
\<close>

lemma splitJSONData_nonempty_when_first_fits:
  assumes run: "splitJSONData Marshal (Doc (User m) # rest) maxChunkSize emailVerify = Inr chunks"
    and first: "Marshal (User (m(''email_verified'' \<mapsto> JBool emailVerify))) = Some userData"
    and fits: "int (length userData) \<le> maxChunkSize"
  shows "[] \<notin> set chunks"
proof -
  from run first fits
  have "splitJSONData_loop Marshal maxChunkSize emailVerify rest []
          [User (m(''email_verified'' \<mapsto> JBool emailVerify))] (int (length userData)) = Inr chunks"
    by (simp add: splitJSONData_def Let_def)
  then show ?thesis by (rule splitJSONData_loop_nonempty) simp_all
qed

text \<open>
  C3. The claim is that no batch is ever empty. The flush in \<^verbatim>\<open>splitJSONData\<close> does not
  look at the chunk it appends: when the very first record is larger than the limit the
  chunk is still empty, and it becomes the first batch. With a limit of 10 bytes and the one
  record \<^verbatim>\<open>{"user_id":"1"}\<close> both generations return an empty batch followed by the
  batch of the record. (An empty stream does give no batch at all.)
\<close>

theorem splitJSONData_empty_first_batch:
  \<open>splitJSONData Marshal_small [Doc (User user_1)] 10 True
     = Inr [[], [User (user_1(''email_verified'' \<mapsto> JBool True))]]
   \<and> splitJSONData_gen1 TrimSpace_ascii Unmarshal_small Marshal_small ''{"user_id":"1"}'' 10
     = Inr [[], [User user_1]]
   \<and> splitJSONData Marshal_small [] 10 True = Inr []\<close>
  by (simp add: splitJSONData_def splitJSONData_gen1_def Marshal_small_def user_1_def
      TrimSpace_ascii_def is_space_def Unmarshal_small_def)

section \<open>Stream batcher: the batches partition the stream\<close>

lemma splitJSONData_loop_concat:
  assumes "splitJSONData_loop M mx ev docs chunks chunk sz = Inr out"
    and f: "\<And>m. f m = User (m(''email_verified'' \<mapsto> JBool ev))"
  shows "\<exists>ms. docs = map (\<lambda>m. Doc (User m)) ms \<and> concat out = concat chunks @ chunk @ map f ms"
  using assms(1)
proof (induction docs arbitrary: chunks chunk sz)
  case Nil
  then show ?case by (auto split: if_splits)
next
  case (Cons d docs)
  show ?case
  proof (cases d)
    case Malformed
    with Cons.prems show ?thesis by simp
  next
    case (Doc u)
    show ?thesis
    proof (cases u)
      case NilMap
      with Doc Cons.prems show ?thesis by simp
    next
      case (User m)
      from Cons.prems Doc User obtain userData where md: "M (f m) = Some userData"
        by (cases "M (f m)") (simp_all add: Let_def f)
      let ?n = "int (length userData)"
      have "\<exists>ms. docs = map (\<lambda>m. Doc (User m)) ms \<and>
          concat out = concat chunks @ chunk @ [f m] @ map f ms"
      proof (cases "sz + ?n > mx")
        case True
        with Cons.prems Doc User md
        have "splitJSONData_loop M mx ev docs (chunks @ [chunk]) [f m] ?n = Inr out"
          by (simp add: Let_def f)
        from Cons.IH[OF this] show ?thesis by simp
      next
        case False
        with Cons.prems Doc User md
        have "splitJSONData_loop M mx ev docs chunks (chunk @ [f m]) (sz + ?n) = Inr out"
          by (simp add: Let_def f)
        from Cons.IH[OF this] show ?thesis by simp
      qed
      then obtain ms where ms: "docs = map (\<lambda>m. Doc (User m)) ms"
        "concat out = concat chunks @ chunk @ [f m] @ map f ms"
        by blast
      show ?thesis
        by (rule exI[where x = "m # ms"]) (use ms Doc User in simp)
    qed
  qed
qed

lemma splitJSONData_gen1_loop_concat:
  "splitJSONData_gen1_loop T U M mx lines chunks chunk sz = Inr out \<Longrightarrow>
     \<exists>us. map (\<lambda>l. U (T l)) (filter (\<lambda>l. T l \<noteq> []) lines) = map Some us \<and>
          concat out = concat chunks @ chunk @ us"
proof (induction lines arbitrary: chunks chunk sz)
  case Nil
  then show ?case by (auto split: if_splits)
next
  case (Cons l lines)
  show ?case
  proof (cases "T l = []")
    case True
    with Cons.prems have "splitJSONData_gen1_loop T U M mx lines chunks chunk sz = Inr out"
      by simp
    from Cons.IH[OF this] True show ?thesis by simp
  next
    case False
    from Cons.prems False obtain user where u: "U (T l) = Some user"
      by (cases "U (T l)") simp_all
    from Cons.prems False u obtain userData where md: "M user = Some userData"
      by (cases "M user") simp_all
    let ?n = "int (length userData)"
    have "\<exists>us. map (\<lambda>l. U (T l)) (filter (\<lambda>l. T l \<noteq> []) lines) = map Some us \<and>
          concat out = concat chunks @ chunk @ [user] @ us"
    proof (cases "sz + ?n > mx")
      case True
      with Cons.prems False u md
      have "splitJSONData_gen1_loop T U M mx lines (chunks @ [chunk]) [user] ?n = Inr out"
        by (simp add: Let_def)
      from Cons.IH[OF this] show ?thesis by simp
    next
      case nf: False
      with Cons.prems False u md
      have "splitJSONData_gen1_loop T U M mx lines chunks (chunk @ [user]) (sz + ?n) = Inr out"
        by (simp add: Let_def)
      from Cons.IH[OF this] show ?thesis by simp
    qed
    then obtain us where us: "map (\<lambda>l. U (T l)) (filter (\<lambda>l. T l \<noteq> []) lines) = map Some us"
      "concat out = concat chunks @ chunk @ [user] @ us" by blast
    show ?thesis
      by (rule exI[where x = "user # us"]) (use us False u in simp)
  qed
qed

text \<open>
  C4. Whenever the batcher succeeds, the batches laid end to end are the records of the
  stream, each once and in the order of the stream. In the second generation the stream is
  then a sequence of JSON objects, and the records of the batches are these objects in
  order, each as the batcher holds it, that is with \<^verbatim>\<open>email_verified\<close> assigned (C10). In
  the first generation the records of the batches are what \<^verbatim>\<open>json.Unmarshal\<close> gave for
  the lines that are not blank, in order and untouched.
\<close>

theorem splitJSONData_partition:
  "(splitJSONData Marshal reader maxChunkSize emailVerify = Inr chunks \<longrightarrow>
      (\<exists>ms. reader = map (\<lambda>m. Doc (User m)) ms \<and>
            concat chunks = map (\<lambda>m. User (m(''email_verified'' \<mapsto> JBool emailVerify))) ms))
   \<and> (splitJSONData_gen1 TrimSpace Unmarshal Marshal' data maxChunkSize' = Inr chunks' \<longrightarrow>
        map Some (concat chunks') =
          map (\<lambda>line. Unmarshal (TrimSpace line)) (filter (\<lambda>line. TrimSpace line \<noteq> []) (Split_nl data)))"
proof (intro conjI impI)
  assume "splitJSONData Marshal reader maxChunkSize emailVerify = Inr chunks"
  then have "splitJSONData_loop Marshal maxChunkSize emailVerify reader [] [] 0 = Inr chunks"
    by (simp add: splitJSONData_def)
  from splitJSONData_loop_concat[OF this,
      of "\<lambda>m. User (m(''email_verified'' \<mapsto> JBool emailVerify))"]
  show "\<exists>ms. reader = map (\<lambda>m. Doc (User m)) ms \<and>
            concat chunks = map (\<lambda>m. User (m(''email_verified'' \<mapsto> JBool emailVerify))) ms"
    by simp
next
  assume "splitJSONData_gen1 TrimSpace Unmarshal Marshal' data maxChunkSize' = Inr chunks'"
  then have "splitJSONData_gen1_loop TrimSpace Unmarshal Marshal' maxChunkSize' (Split_nl data) [] [] 0
      = Inr chunks'"
    by (simp add: splitJSONData_gen1_def)
  from splitJSONData_gen1_loop_concat[OF this]
  show "map Some (concat chunks') =
          map (\<lambda>line. Unmarshal (TrimSpace line)) (filter (\<lambda>line. TrimSpace line \<noteq> []) (Split_nl data))"
    by auto
qed

theorem splitJSONData_partition_witness:
  "splitJSONData Marshal_small three_docs 80 True =
     Inr [[User (user_1(''email_verified'' \<mapsto> JBool True)),
           User (user_2(''email_verified'' \<mapsto> JBool True))],
          [User (user_3(''email_verified'' \<mapsto> JBool True))]]
   \<and> (\<exists>ms. three_docs = map (\<lambda>m. Doc (User m)) ms \<and>
        concat [[User (user_1(''email_verified'' \<mapsto> JBool True)),
                 User (user_2(''email_verified'' \<mapsto> JBool True))],
                [User (user_3(''email_verified'' \<mapsto> JBool True))]]
          = map (\<lambda>m. User (m(''email_verified'' \<mapsto> JBool True))) ms)
   \<and> splitJSONData_gen1 TrimSpace_ascii Unmarshal_small Marshal_small two_lines 60 =
       Inr [[User user_1], [User user_3]]
   \<and> map Some (concat [[User user_1], [User user_3]]) =
       map (\<lambda>line. Unmarshal_small (TrimSpace_ascii line))
         (filter (\<lambda>line. TrimSpace_ascii line \<noteq> []) (Split_nl two_lines))"
proof -
  have run2: "splitJSONData Marshal_small three_docs 80 True =
     Inr [[User (user_1(''email_verified'' \<mapsto> JBool True)),
           User (user_2(''email_verified'' \<mapsto> JBool True))],
          [User (user_3(''email_verified'' \<mapsto> JBool True))]]"
    by (simp add: splitJSONData_def three_docs_def Marshal_small_def user_1_def user_2_def user_3_def)
  have run1: "splitJSONData_gen1 TrimSpace_ascii Unmarshal_small Marshal_small two_lines 60 =
       Inr [[User user_1], [User user_3]]"
    by (simp add: splitJSONData_gen1_def two_lines_def TrimSpace_ascii_def is_space_def
        Unmarshal_small_def Marshal_small_def user_1_def user_3_def)
  note part = splitJSONData_partition
    [where Marshal = Marshal_small and reader = three_docs and maxChunkSize = 80
       and emailVerify = True and TrimSpace = TrimSpace_ascii and Unmarshal = Unmarshal_small
       and Marshal' = Marshal_small and data = two_lines and maxChunkSize' = 60]
  from part[THEN conjunct1, rule_format, OF run2] part[THEN conjunct2, rule_format, OF run1]
    run1 run2
  show ?thesis by blast
qed

section \<open>Stream batcher: the assigned flag\<close>

text \<open>
  C10. When the second-generation batcher succeeds, every document of the stream was a JSON
  object, and the record at the same place in the batches is that object with
  \<^verbatim>\<open>email_verified\<close> equal to the argument \<^verbatim>\<open>emailVerify\<close>, whatever the object
  held there, and with every other key as the object had it. (A \<^verbatim>\<open>null\<close> document is the
  one thing that decodes and is no object; the batcher does not succeed on it, see C9.)
\<close>

theorem splitJSONData_sets_email_verified:
  assumes "splitJSONData Marshal reader maxChunkSize emailVerify = Inr chunks"
  shows "list_all2
           (\<lambda>d u. \<exists>m m'. d = Doc (User m) \<and> u = User m' \<and>
               m' ''email_verified'' = Some (JBool emailVerify) \<and>
               (\<forall>k. k \<noteq> ''email_verified'' \<longrightarrow> m' k = m k))
           reader (concat chunks)"
proof -
  from assms
  have "splitJSONData_loop Marshal maxChunkSize emailVerify reader [] [] 0 = Inr chunks"
    by (simp add: splitJSONData_def)
  from splitJSONData_loop_concat[OF this,
      of "\<lambda>m. User (m(''email_verified'' \<mapsto> JBool emailVerify))"]
  obtain ms where ms: "reader = map (\<lambda>m. Doc (User m)) ms"
    "concat chunks = map (\<lambda>m. User (m(''email_verified'' \<mapsto> JBool emailVerify))) ms"
    by auto
  show ?thesis
    unfolding ms by (simp add: list_all2_map1 list_all2_map2 list_all2_same)
qed

theorem splitJSONData_sets_email_verified_witness:
  "splitJSONData Marshal_small [Doc (User user_1), Doc (User user_2)] 500000 True =
     Inr [[User (user_1(''email_verified'' \<mapsto> JBool True)),
           User (user_2(''email_verified'' \<mapsto> JBool True))]]
   \<and> user_2 ''email_verified'' = Some (JBool False)
   \<and> list_all2
        (\<lambda>d u. \<exists>m m'. d = Doc (User m) \<and> u = User m' \<and>
            m' ''email_verified'' = Some (JBool True) \<and>
            (\<forall>k. k \<noteq> ''email_verified'' \<longrightarrow> m' k = m k))
        [Doc (User user_1), Doc (User user_2)]
        (concat [[User (user_1(''email_verified'' \<mapsto> JBool True)),
                  User (user_2(''email_verified'' \<mapsto> JBool True))]])"
proof -
  have run: "splitJSONData Marshal_small [Doc (User user_1), Doc (User user_2)] 500000 True =
     Inr [[User (user_1(''email_verified'' \<mapsto> JBool True)),
           User (user_2(''email_verified'' \<mapsto> JBool True))]]"
    by (simp add: splitJSONData_def Marshal_small_def user_1_def user_2_def)
  have "user_2 ''email_verified'' = Some (JBool False)"
    by (simp add: user_2_def)
  with run splitJSONData_sets_email_verified[OF run] show ?thesis by blast
qed

section \<open>Stream batcher: the size of a batch\<close>






section \<open>Stream batcher: malformed documents\<close>

lemma splitJSONData_loop_malformed:
  assumes "\<And>m. M (User (m(''email_verified'' \<mapsto> JBool ev))) \<noteq> None"
  shows "splitJSONData_loop M mx ev (map (\<lambda>m. Doc (User m)) ms @ Malformed # rest) chunks chunk sz
           = Inl DecodeError"
proof (induction ms arbitrary: chunks chunk sz)
  case Nil
  show ?case by simp
next
  case (Cons m ms)
  from assms[of m] obtain userData where "M (User (m(''email_verified'' \<mapsto> JBool ev))) = Some userData"
    by blast
  then show ?case by (simp add: Cons.IH Let_def)
qed

text \<open>
  When every document before the first malformed one is a JSON object (and
  \<^verbatim>\<open>json.Marshal\<close> gives bytes for a decoded object, as it does), the second-generation
  batcher returns the decode error and no batch.
\<close>

lemma splitJSONData_malformed:
  assumes "\<And>m. Marshal (User (m(''email_verified'' \<mapsto> JBool emailVerify))) \<noteq> None"
  shows "splitJSONData Marshal (map (\<lambda>m. Doc (User m)) ms @ Malformed # rest) maxChunkSize emailVerify
           = Inl DecodeError"
  unfolding splitJSONData_def
  by (rule splitJSONData_loop_malformed[where M = Marshal and ev = emailVerify]) (rule assms)

text \<open>
  C9. The claim is that every stream with a malformed record makes the batcher fail with
  DecodeError. It does when the documents before the malformed one are JSON objects (lemma
  \<open>splitJSONData_malformed\<close>). A \<^verbatim>\<open>null\<close> document is well-formed JSON that
  \<^verbatim>\<open>Decode\<close> accepts, leaving the map nil; the second-generation batcher then assigns
  \<^verbatim>\<open>email_verified\<close> into the nil map, which is a run-time panic. On the stream of a
  \<^verbatim>\<open>null\<close> followed by a malformed document the batcher ends with that panic, before it
  reaches the malformed document, and not with the decode error.
\<close>

theorem splitJSONData_null_then_malformed_panics:
  "splitJSONData Marshal_small [Doc NilMap, Malformed] 500000 True = Inl NilMapPanic"
  by (simp add: splitJSONData_def)

section \<open>Import orchestrator: in order, up to the first failure\<close>





end
